theory Spec2Isabelle
  imports Complex_Main
begin

section \<open>Drone mission media import: data model\<close>

text \<open>
  The program walks mission folders, reads GPS positions out of photos (EXIF) and videos
  (the container's location tag, read through ffprobe) and inserts one row per geotagged file
  into the table \<open>drone_mission\<close>.

  Modelling conventions.
  \<^item> A Python \<open>str\<close> is a \<open>string\<close>: a list of code points below 256. On that range the
    pattern class \<open>\d\<close> is the ten ASCII digits.
  \<^item> A Python \<open>float\<close> is the rational number it stands for; rounding is not modelled.
  \<^item> \<open>None\<close> is \<open>None\<close>; a raised exception is \<open>Inl\<close> of a \<open>py_error\<close>.
  \<^item> Every \<open>print\<close> is an event appended to the standard output; \<open>print\<close> itself does not fail.
\<close>

datatype py_error =
    OSError
  | ValueError string
  | KeyError string
  | TypeError
  | IndexError
  | AttributeError string
  | JSONDecodeError
  | OperationalError

text \<open>Sequencing of two steps, the first of which may raise: the exception of the first step
  ends the sequence.\<close>

definition py_bind :: "py_error + 'a \<Rightarrow> ('a \<Rightarrow> py_error + 'b) \<Rightarrow> py_error + 'b" where
  "py_bind x f = (case x of Inl e \<Rightarrow> Inl e | Inr v \<Rightarrow> f v)"

subsection \<open>Regular expression fragment used by the video extractor\<close>

text \<open>
  The pattern \<open>([+-]\d+\.\d+)([+-]\d+\.\d+)\<close> is a sequence of items, each a character
  class taken once or taken one or more times (\<open>+\<close>, greedy). \<open>match_items\<close> is the
  backtracking matcher of \<open>re.match\<close> on that fragment: anchored at the start of the string,
  a \<open>+\<close> item first tries to take one more character and falls back to the next item only
  when that fails. It returns the text taken by each item and the unread rest.
\<close>

datatype item = One "char \<Rightarrow> bool" | Many1 "char \<Rightarrow> bool"

fun match_items :: "item list \<Rightarrow> string \<Rightarrow> (string list \<times> string) option" where
  "match_items [] s = Some ([], s)"
| "match_items (One p # its) [] = None"
| "match_items (One p # its) (c # r) =
     (if p c then map_option (\<lambda>(parts, rest). ([c] # parts, rest)) (match_items its r)
      else None)"
| "match_items (Many1 p # its) [] = None"
| "match_items (Many1 p # its) (c # r) =
     (if p c then
        (case match_items (Many1 p # its) r of
           Some (part # parts, rest) \<Rightarrow> Some ((c # part) # parts, rest)
         | Some ([], rest) \<Rightarrow> None
         | None \<Rightarrow> map_option (\<lambda>(parts, rest). ([c] # parts, rest)) (match_items its r))
      else None)"

definition is_sign :: "char \<Rightarrow> bool" where
  "is_sign c = (c = CHR ''+'' \<or> c = CHR ''-'')"

definition is_digit :: "char \<Rightarrow> bool" where
  "is_digit c = (c \<in> set ''0123456789'')"

definition is_dot :: "char \<Rightarrow> bool" where
  "is_dot c = (c = CHR ''.'')"

definition signed_decimal_items :: "item list" where
  "signed_decimal_items = [One is_sign, Many1 is_digit, One is_dot, Many1 is_digit]"

definition location_pattern :: "item list" where
  "location_pattern = signed_decimal_items @ signed_decimal_items"

text \<open>\<open>re.match(pattern, location)\<close> with its two groups: \<open>group(1)\<close> is the text of the first
  four items, \<open>group(2)\<close> the text of the last four.\<close>

definition re_match_location :: "string \<Rightarrow> (string \<times> string) option" where
  "re_match_location location =
     (case match_items location_pattern location of
        None \<Rightarrow> None
      | Some (parts, rest) \<Rightarrow> Some (concat (take 4 parts), concat (drop 4 parts)))"

subsection \<open>Conversion of a captured group to a number\<close>

text \<open>
  \<open>float(match.group(i))\<close>. The model covers the strings the pattern can capture: a sign,
  digits, a point, digits. On any other string it answers \<open>None\<close>, which the extractor
  treats as the \<open>ValueError\<close> of \<open>float\<close>.
\<close>

definition digit_value :: "char \<Rightarrow> nat" where
  "digit_value c = of_char c - 48"

definition digits_value :: "string \<Rightarrow> nat" where
  "digits_value ds = foldl (\<lambda>acc c. 10 * acc + digit_value c) 0 ds"

definition py_float :: "string \<Rightarrow> rat option" where
  "py_float s =
     (case s of
        [] \<Rightarrow> None
      | c # r \<Rightarrow>
          if \<not> is_sign c then None
          else
            (let ip = takeWhile is_digit r; r1 = dropWhile is_digit r in
             case r1 of
               [] \<Rightarrow> None
             | d # fp \<Rightarrow>
                 if is_dot d \<and> ip \<noteq> [] \<and> fp \<noteq> [] \<and> list_all is_digit fp then
                   Some ((if c = CHR ''-'' then - 1 else 1) *
                         (of_nat (digits_value ip) + of_nat (digits_value fp) / 10 ^ length fp))
                 else None))"

subsection \<open>JSON values as \<open>json.loads\<close> returns them\<close>

text \<open>A dict is the list of its items; its keys are distinct, as those of a Python dict
  are.\<close>

datatype json =
    JNull
  | JBool bool
  | JNum rat
  | JStr string
  | JArr "json list"
  | JObj "(string \<times> json) list"

text \<open>\<open>key in value\<close>: key membership for a dict, element membership for a list, substring
  test for a string, \<open>TypeError\<close> for the other values.\<close>

fun is_substring :: "string \<Rightarrow> string \<Rightarrow> bool" where
  "is_substring k [] = (k = [])"
| "is_substring k (c # s) = (take (length k) (c # s) = k \<or> is_substring k s)"

fun py_contains :: "string \<Rightarrow> json \<Rightarrow> py_error + bool" where
  "py_contains k (JObj kvs) = Inr (k \<in> set (map fst kvs))"
| "py_contains k (JArr xs) = Inr (JStr k \<in> set xs)"
| "py_contains k (JStr s) = Inr (is_substring k s)"
| "py_contains k JNull = Inl TypeError"
| "py_contains k (JBool b) = Inl TypeError"
| "py_contains k (JNum n) = Inl TypeError"

text \<open>\<open>value[key]\<close> with a string key: lookup in a dict (\<open>KeyError\<close> when the key is
  missing), \<open>TypeError\<close> for every other value.\<close>

fun py_getitem :: "json \<Rightarrow> string \<Rightarrow> py_error + json" where
  "py_getitem (JObj kvs) k = (case map_of kvs k of None \<Rightarrow> Inl (KeyError k) | Some v \<Rightarrow> Inr v)"
| "py_getitem JNull k = Inl TypeError"
| "py_getitem (JBool b) k = Inl TypeError"
| "py_getitem (JNum n) k = Inl TypeError"
| "py_getitem (JStr s) k = Inl TypeError"
| "py_getitem (JArr xs) k = Inl TypeError"

subsection \<open>EXIF image as the \<open>exif\<close> library presents it\<close>

text \<open>An attribute that the image does not have is \<open>None\<close>: reading it raises
  \<open>AttributeError\<close> and \<open>hasattr\<close> answers \<open>False\<close>.\<close>

record exif_image =
  has_exif :: bool
  gps_latitude :: "rat list option"
  gps_longitude :: "rat list option"
  gps_altitude :: "rat option"
  gps_latitude_ref :: "string option"
  gps_longitude_ref :: "string option"

subsection \<open>The world outside the program\<close>

text \<open>
  What the program reads and does not change: the file system, the EXIF reader, the probing
  process and the JSON parser.
  \<^item> \<open>open_image p\<close>: \<open>open(p, 'rb')\<close> followed by \<open>Image(photo_file)\<close>;
  \<^item> \<open>run_ffprobe p\<close>: the captured standard output of \<open>subprocess.run\<close>;
  \<^item> \<open>json_loads\<close>: \<open>json.loads\<close>;
  \<^item> \<open>os_walk\<close>, \<open>os_listdir\<close>, \<open>os_path_isdir\<close>, \<open>os_path_join\<close>: the functions of \<open>os\<close>;
  \<^item> \<open>connect\<close>: reading the configuration file and opening the connection.
\<close>

record env =
  open_image :: "string \<Rightarrow> py_error + exif_image"
  run_ffprobe :: "string \<Rightarrow> py_error + string"
  json_loads :: "string \<Rightarrow> py_error + json"
  os_walk :: "string \<Rightarrow> (string \<times> string list \<times> string list) list"
  os_listdir :: "string \<Rightarrow> py_error + string list"
  os_path_isdir :: "string \<Rightarrow> bool"
  os_path_join :: "string \<Rightarrow> string \<Rightarrow> string"
  connect :: "string \<Rightarrow> py_error + unit"

type_synonym gps = "rat \<times> rat \<times> rat option"

datatype log_event =
    LogConnected
  | LogPhotoExtracted string rat rat "rat option"
  | LogPhotoNoGps string
  | LogPhotoError string py_error
  | LogVideoExtracted string rat rat "rat option"
  | LogVideoNoGps string
  | LogVideoError string py_error
  | LogTableCreated
  | LogProcessedMedia string nat
  | LogProcessingMission string
  | LogProcessingComplete

section \<open>The extractors\<close>

subsection \<open>Photo\<close>

text \<open>Tuple indexing \<open>t[i]\<close>: \<open>IndexError\<close> out of range.\<close>

definition py_index :: "'a list \<Rightarrow> nat \<Rightarrow> py_error + 'a" where
  "py_index xs i = (if i < length xs then Inr (xs ! i) else Inl IndexError)"

definition py_getattr :: "string \<Rightarrow> 'a option \<Rightarrow> py_error + 'a" where
  "py_getattr name a = (case a of None \<Rightarrow> Inl (AttributeError name) | Some v \<Rightarrow> Inr v)"

text \<open>\<open>sign * (t[0] + t[1] / 60 + t[2] / 3600)\<close>\<close>

definition dms_to_decimal :: "rat \<Rightarrow> rat list \<Rightarrow> py_error + rat" where
  "dms_to_decimal sign t =
     py_bind (py_index t 0) (\<lambda>d.
     py_bind (py_index t 1) (\<lambda>m.
     py_bind (py_index t 2) (\<lambda>s.
       Inr (sign * (d + m / 60 + s / 3600)))))"

text \<open>The body of the \<open>try\<close> block: \<open>Inl\<close> is an exception raised inside it, \<open>Inr None\<close> the
  fall-through to "no GPS metadata found".\<close>

definition photo_try :: "env \<Rightarrow> string \<Rightarrow> py_error + gps option" where
  "photo_try ev photo_path =
     py_bind (open_image ev photo_path) (\<lambda>img.
       if has_exif img \<and> gps_latitude img \<noteq> None \<and> gps_longitude img \<noteq> None then
         py_bind (py_getattr ''gps_latitude'' (gps_latitude img)) (\<lambda>lat.
         py_bind (py_getattr ''gps_longitude'' (gps_longitude img)) (\<lambda>lon.
         let alt = gps_altitude img in
         py_bind (py_getattr ''gps_latitude_ref'' (gps_latitude_ref img)) (\<lambda>lat_ref.
         let lat_sign = (if lat_ref = ''N'' then 1 else - 1) in
         py_bind (py_getattr ''gps_longitude_ref'' (gps_longitude_ref img)) (\<lambda>lon_ref.
         let lon_sign = (if lon_ref = ''E'' then 1 else - 1) in
         py_bind (dms_to_decimal lat_sign lat) (\<lambda>lat_dec.
         py_bind (dms_to_decimal lon_sign lon) (\<lambda>lon_dec.
           Inr (Some (lat_dec, lon_dec, alt))))))))
       else Inr None)"

text \<open>The function: the result and the one line it prints. \<open>except Exception\<close> catches every
  \<open>py_error\<close>.\<close>

definition extract_gps_metadata_from_photo :: "env \<Rightarrow> string \<Rightarrow> gps option \<times> log_event" where
  "extract_gps_metadata_from_photo ev photo_path =
     (case photo_try ev photo_path of
        Inr (Some (lat_dec, lon_dec, alt)) \<Rightarrow>
          (Some (lat_dec, lon_dec, alt), LogPhotoExtracted photo_path lat_dec lon_dec alt)
      | Inr None \<Rightarrow> (None, LogPhotoNoGps photo_path)
      | Inl e \<Rightarrow> (None, LogPhotoError photo_path e))"

subsection \<open>Video\<close>

text \<open>\<open>re.match\<close> needs a string: any other JSON value raises \<open>TypeError\<close>.\<close>

definition py_re_match :: "json \<Rightarrow> py_error + (string \<times> string) option" where
  "py_re_match location = (case location of JStr loc \<Rightarrow> Inr (re_match_location loc) | _ \<Rightarrow> Inl TypeError)"

definition py_float_group :: "string \<Rightarrow> py_error + rat" where
  "py_float_group g = (case py_float g of None \<Rightarrow> Inl (ValueError g) | Some x \<Rightarrow> Inr x)"

text \<open>From the tag to the result: the match, the two conversions and the tuple returned
  (\<open>alt = None\<close>).\<close>

definition parse_location :: "json \<Rightarrow> py_error + gps option" where
  "parse_location location =
     py_bind (py_re_match location) (\<lambda>m.
       case m of
         None \<Rightarrow> Inr None
       | Some (g1, g2) \<Rightarrow>
           py_bind (py_float_group g1) (\<lambda>lat.
           py_bind (py_float_group g2) (\<lambda>lon.
             Inr (Some (lat, lon, None)))))"

definition video_try :: "env \<Rightarrow> string \<Rightarrow> py_error + gps option" where
  "video_try ev video_path =
     py_bind (run_ffprobe ev video_path) (\<lambda>stdout.
     py_bind (json_loads ev stdout) (\<lambda>metadata.
     py_bind (py_getitem metadata ''format'') (\<lambda>fmt.
     py_bind (py_contains ''tags'' fmt) (\<lambda>has_tags.
       if has_tags then
         py_bind (py_getitem fmt ''tags'') (\<lambda>tags.
         py_bind (py_contains ''location'' tags) (\<lambda>has_location.
           if has_location then
             py_bind (py_getitem tags ''location'') parse_location
           else Inr None))
       else Inr None))))"

definition extract_gps_metadata_from_video :: "env \<Rightarrow> string \<Rightarrow> gps option \<times> log_event" where
  "extract_gps_metadata_from_video ev video_path =
     (case video_try ev video_path of
        Inr (Some (lat, lon, alt)) \<Rightarrow> (Some (lat, lon, alt), LogVideoExtracted video_path lat lon alt)
      | Inr None \<Rightarrow> (None, LogVideoNoGps video_path)
      | Inl e \<Rightarrow> (None, LogVideoError video_path e))"

section \<open>The database and the standard output\<close>

text \<open>
  The state the program changes. \<open>missoes\<close> holds the rows \<open>(id, nome)\<close> of the missions
  table; \<open>drone_mission\<close> the rows of the media table, an absent table being the empty list.
  The column \<open>id\<close> of \<open>drone_mission\<close> is generated by the server and never read by the
  program; it is left out of the rows. \<open>db_calls\<close> is the sequence of calls made on the
  connection, \<open>stdout\<close> the lines printed. Failures raised by the server itself (a lost
  connection, a value longer than its column) are outside the model.
\<close>

datatype geometry = Point nat rat rat

record db_row =
  row_full_path :: string
  row_file_name :: string
  row_media_type :: string
  row_altitude :: "rat option"
  row_geom :: geometry
  row_mission_id :: int

datatype db_call =
    ExecuteCreateTable
  | ExecuteSelectMission string
  | ExecuteValuesInsert "db_row list"
  | Commit
  | Close

record world =
  missoes :: "(int \<times> string) list"
  drone_mission :: "db_row list"
  db_calls :: "db_call list"
  stdout :: "log_event list"

text \<open>\<open>SELECT id FROM missoes WHERE nome = %s\<close> followed by \<open>fetchone()\<close> and \<open>[0]\<close>.\<close>

definition select_mission_id :: "(int \<times> string) list \<Rightarrow> string \<Rightarrow> int option" where
  "select_mission_id tbl mission_name =
     (case filter (\<lambda>r. snd r = mission_name) tbl of [] \<Rightarrow> None | r # _ \<Rightarrow> Some (fst r))"

text \<open>\<open>INSERT ... ON CONFLICT (full_path) DO NOTHING\<close>, one row: a row whose \<open>full_path\<close> is
  already in the table is dropped.\<close>

definition insert_on_conflict_do_nothing :: "db_row list \<Rightarrow> db_row \<Rightarrow> db_row list" where
  "insert_on_conflict_do_nothing tbl r =
     (if row_full_path r \<in> set (map row_full_path tbl) then tbl else tbl @ [r])"

text \<open>\<open>execute_values(cursor, query, rows)\<close>: the rows are inserted in order. (The library
  sends them in pages, each page one statement of the same form; on the table this is the
  same.)\<close>

definition execute_values :: "db_row list \<Rightarrow> db_row list \<Rightarrow> db_row list" where
  "execute_values tbl rows = foldl insert_on_conflict_do_nothing tbl rows"

definition create_drone_mission_table :: "world \<Rightarrow> world" where
  "create_drone_mission_table w =
     w\<lparr>db_calls := db_calls w @ [ExecuteCreateTable, Commit],
       stdout := stdout w @ [LogTableCreated]\<rparr>"

section \<open>Processing one mission\<close>

text \<open>The tuples appended to \<open>data\<close>.\<close>

record media_record =
  full_path :: string
  file_name :: string
  media_type :: string
  latitude :: rat
  longitude :: rat
  altitude :: "rat option"
  mission_id :: int

subsection \<open>String methods\<close>

text \<open>\<open>str.lower\<close> on code points below 256: the letters A to Z and the accented capitals
  (0xC0 to 0xDE, the multiplication sign 0xD7 apart) move up by 32.\<close>

definition lower_char :: "char \<Rightarrow> char" where
  "lower_char c =
     (let n = (of_char c :: nat) in
      if (65 \<le> n \<and> n \<le> 90) \<or> (192 \<le> n \<and> n \<le> 222 \<and> n \<noteq> 215) then char_of (n + 32) else c)"

definition py_lower :: "string \<Rightarrow> string" where
  "py_lower s = map lower_char s"

definition endswith :: "string \<Rightarrow> string \<Rightarrow> bool" where
  "endswith s suf = (length suf \<le> length s \<and> drop (length s - length suf) s = suf)"

text \<open>\<open>s.endswith((a, b, ...))\<close> with a tuple of suffixes.\<close>

definition endswith_any :: "string \<Rightarrow> string list \<Rightarrow> bool" where
  "endswith_any s sufs = list_ex (endswith s) sufs"

definition startswith :: "string \<Rightarrow> string \<Rightarrow> bool" where
  "startswith s pre = (take (length pre) s = pre)"

subsection \<open>The walk over the mission folder\<close>

text \<open>The body of the inner loop, for one \<open>file\<close> of one \<open>root\<close> (here \<open>root_dir\<close>); the accumulator is \<open>data\<close> and
  the lines printed so far.\<close>

definition file_step ::
  "env \<Rightarrow> int \<Rightarrow> string \<Rightarrow> string \<Rightarrow> media_record list \<times> log_event list \<Rightarrow>
   media_record list \<times> log_event list" where
  "file_step ev mid root_dir file acc =
     (let data = fst acc; out = snd acc; fp = os_path_join ev root_dir file in
      if endswith_any (py_lower file) [''.jpg'', ''.jpeg'', ''.png''] then
        (case extract_gps_metadata_from_photo ev fp of
           (Some (lat, lon, alt), e) \<Rightarrow>
             (data @ [\<lparr>full_path = fp, file_name = file, media_type = ''photo'', latitude = lat,
                        longitude = lon, altitude = alt, mission_id = mid\<rparr>], out @ [e])
         | (None, e) \<Rightarrow> (data, out @ [e]))
      else if endswith_any (py_lower file) [''.mp4'', ''.mov'', ''.avi'', ''.mkv''] then
        (case extract_gps_metadata_from_video ev fp of
           (Some (lat, lon, alt), e) \<Rightarrow>
             (data @ [\<lparr>full_path = fp, file_name = file, media_type = ''video'', latitude = lat,
                        longitude = lon, altitude = alt, mission_id = mid\<rparr>], out @ [e])
         | (None, e) \<Rightarrow> (data, out @ [e]))
      else (data, out))"

definition walk_media ::
  "env \<Rightarrow> int \<Rightarrow> (string \<times> string list \<times> string list) list \<Rightarrow>
   media_record list \<times> log_event list" where
  "walk_media ev mid walk =
     fold (\<lambda>(root_dir, dirs, files) acc. fold (file_step ev mid root_dir) files acc) walk ([], [])"

text \<open>The row built for one tuple of \<open>data\<close>: the point is \<open>SRID=4326;POINT(lon lat)\<close>.\<close>

definition row_of :: "media_record \<Rightarrow> db_row" where
  "row_of m =
     \<lparr>row_full_path = full_path m, row_file_name = file_name m, row_media_type = media_type m,
      row_altitude = altitude m, row_geom = Point 4326 (longitude m) (latitude m),
      row_mission_id = mission_id m\<rparr>"

definition not_found_message :: "string \<Rightarrow> string" where
  "not_found_message mission_name =
     ''Mission '' @ [CHR 0x27] @ mission_name @ [CHR 0x27] @ '' not found in the `missoes` table.''"

definition process_mission_media ::
  "env \<Rightarrow> world \<Rightarrow> string \<Rightarrow> string \<Rightarrow> (py_error + unit) \<times> world" where
  "process_mission_media ev w mission_name mission_path =
     (let w1 = w\<lparr>db_calls := db_calls w @ [ExecuteSelectMission mission_name]\<rparr> in
      case select_mission_id (missoes w1) mission_name of
        None \<Rightarrow> (Inl (ValueError (not_found_message mission_name)), w1)
      | Some mid \<Rightarrow>
          (let walked = walk_media ev mid (os_walk ev mission_path);
               data = fst walked;
               w2 = w1\<lparr>stdout := stdout w1 @ snd walked\<rparr>;
               w3 = (if data \<noteq> [] then
                       w2\<lparr>drone_mission := execute_values (drone_mission w2) (map row_of data),
                          db_calls := db_calls w2 @ [ExecuteValuesInsert (map row_of data), Commit]\<rparr>
                     else w2)
           in (Inr (), w3\<lparr>stdout := stdout w3 @ [LogProcessedMedia mission_name (length data)]\<rparr>)))"

section \<open>The orchestrator\<close>

text \<open>The loop over \<open>os.listdir(base_folder)\<close>. An exception of \<open>process_mission_media\<close> is not
  handled: it ends the loop.\<close>

fun mission_loop :: "env \<Rightarrow> string \<Rightarrow> string list \<Rightarrow> world \<Rightarrow> (py_error + unit) \<times> world" where
  "mission_loop ev base_folder [] w = (Inr (), w)"
| "mission_loop ev base_folder (mission # rest) w =
     (let mission_path = os_path_join ev base_folder mission in
      if os_path_isdir ev mission_path \<and> startswith mission ''Mission'' then
        (case process_mission_media ev (w\<lparr>stdout := stdout w @ [LogProcessingMission mission]\<rparr>)
                mission mission_path of
           (Inl e, w') \<Rightarrow> (Inl e, w')
         | (Inr u, w') \<Rightarrow> mission_loop ev base_folder rest w')
      else mission_loop ev base_folder rest w)"

definition process_all :: "env \<Rightarrow> world \<Rightarrow> string \<Rightarrow> string \<Rightarrow> (py_error + unit) \<times> world" where
  "process_all ev w base_folder config_path =
     (case connect ev config_path of
        Inl e \<Rightarrow> (Inl e, w)
      | Inr u \<Rightarrow>
          (let w1 = create_drone_mission_table (w\<lparr>stdout := stdout w @ [LogConnected]\<rparr>) in
           case os_listdir ev base_folder of
             Inl e \<Rightarrow> (Inl e, w1)
           | Inr entries \<Rightarrow>
               (case mission_loop ev base_folder entries w1 of
                  (Inl e, w2) \<Rightarrow> (Inl e, w2)
                | (Inr u, w2) \<Rightarrow>
                    (Inr (), w2\<lparr>db_calls := db_calls w2 @ [Close],
                               stdout := stdout w2 @ [LogProcessingComplete]\<rparr>))))"

section \<open>Properties stated in the words of the specification\<close>

text \<open>A signed decimal: a sign, one or more digits, a decimal point, one or more digits.\<close>

definition signed_decimal :: "string \<Rightarrow> bool" where
  "signed_decimal s =
     (\<exists>c ip fp. s = c # ip @ CHR ''.'' # fp \<and> is_sign c \<and> ip \<noteq> [] \<and> fp \<noteq> [] \<and>
        list_all is_digit ip \<and> list_all is_digit fp)"

definition begins_with_two_signed_decimals :: "string \<Rightarrow> bool" where
  "begins_with_two_signed_decimals s =
     (\<exists>a b t. s = a @ b @ t \<and> signed_decimal a \<and> signed_decimal b)"

text \<open>What the matcher does on one signed decimal, written with \<open>takeWhile\<close>; shown below to
  agree with \<open>match_items\<close>.\<close>

definition scan_signed_decimal :: "string \<Rightarrow> (string list \<times> string) option" where
  "scan_signed_decimal s =
     (case s of
        [] \<Rightarrow> None
      | c # r \<Rightarrow>
          if is_sign c \<and> takeWhile is_digit r \<noteq> [] then
            (case dropWhile is_digit r of
               [] \<Rightarrow> None
             | d # r2 \<Rightarrow>
                 if is_dot d \<and> takeWhile is_digit r2 \<noteq> [] then
                   Some ([[c], takeWhile is_digit r, [d], takeWhile is_digit r2], dropWhile is_digit r2)
                 else None)
          else None)"

text \<open>The extension of a file name: the text after its last point, if it has a point.\<close>

definition file_extension :: "string \<Rightarrow> string option" where
  "file_extension name =
     (if CHR ''.'' \<in> set name then Some (rev (takeWhile (\<lambda>c. c \<noteq> CHR ''.'') (rev name)))
      else None)"

text \<open>The three classes of files, decided by the lower-cased extension.\<close>

datatype media_class = PhotoFile | VideoFile | IgnoredFile

definition classify :: "string \<Rightarrow> media_class" where
  "classify name =
     (case file_extension (py_lower name) of
        None \<Rightarrow> IgnoredFile
      | Some ext \<Rightarrow>
          if ext \<in> set [''jpg'', ''jpeg'', ''png''] then PhotoFile
          else if ext \<in> set [''mp4'', ''mov'', ''avi'', ''mkv''] then VideoFile
          else IgnoredFile)"


text \<open>The entries of the base folder that the orchestrator hands to
  \<open>process_mission_media\<close>: directories whose name starts with \<open>Mission\<close>.\<close>

definition is_mission_folder :: "env \<Rightarrow> string \<Rightarrow> string \<Rightarrow> bool" where
  "is_mission_folder ev base_folder entry =
     (os_path_isdir ev (os_path_join ev base_folder entry) \<and> startswith entry ''Mission'')"



text \<open>The paths stored in the media table.\<close>

definition stored_paths :: "db_row list \<Rightarrow> string set" where
  "stored_paths tbl = set (map row_full_path tbl)"

section \<open>A small mission folder\<close>

text \<open>A base folder with two mission folders and one other folder. \<open>Mission1\<close> holds a
  geotagged photo, a geotagged video and a text file; only \<open>Mission1\<close> is in the missions
  table.\<close>

definition example_image :: exif_image where
  "example_image =
     \<lparr>has_exif = True, gps_latitude = Some [40, 12, 36], gps_longitude = Some [8, 30, 18],
      gps_altitude = Some 120, gps_latitude_ref = Some ''N'', gps_longitude_ref = Some ''W''\<rparr>"

definition example_metadata :: json where
  "example_metadata =
     JObj [(''format'',
            JObj [(''filename'', JStr ''base/Mission1/b.mp4''),
                  (''tags'', JObj [(''location'', JStr ''+40.1234-008.5678'')])])]"

definition example_env :: env where
  "example_env =
     \<lparr>open_image = (\<lambda>p. if p = ''base/Mission1/a.jpg'' then Inr example_image else Inl OSError),
      run_ffprobe = (\<lambda>p. if p = ''base/Mission1/b.mp4'' then Inr ''tags of b.mp4'' else Inr []),
      json_loads = (\<lambda>s. if s = ''tags of b.mp4'' then Inr example_metadata else Inl JSONDecodeError),
      os_walk = (\<lambda>p. if p = ''base/Mission1''
                     then [(''base/Mission1'', [], [''a.jpg'', ''b.mp4'', ''notes.txt''])] else []),
      os_listdir = (\<lambda>p. if p = ''base'' then Inr [''Mission1'', ''Other'', ''Mission2'']
                        else Inl OSError),
      os_path_isdir = (\<lambda>p. p \<in> set [''base/Mission1'', ''base/Other'', ''base/Mission2'']),
      os_path_join = (\<lambda>a b. a @ ''/'' @ b),
      connect = (\<lambda>c. Inr ())\<rparr>"

definition example_world :: world where
  "example_world = \<lparr>missoes = [(1, ''Mission1'')], drone_mission = [], db_calls = [], stdout = []\<rparr>"


section \<open>The pattern of the location tag\<close>

subsection \<open>The matcher on one signed decimal\<close>

lemma match_items_Many1:
  assumes "its = [] \<or> (\<exists>q its'. its = One q # its' \<and> (\<forall>c. q c \<longrightarrow> \<not> p c))"
  shows "match_items (Many1 p # its) s =
     (if takeWhile p s = [] then None
      else map_option (\<lambda>(parts, rest). (takeWhile p s # parts, rest)) (match_items its (dropWhile p s)))"
proof (induction s)
  case Nil
  show ?case by simp
next
  case (Cons c r)
  show ?case
  proof (cases "p c")
    case False
    then show ?thesis by simp
  next
    case pc: True
    show ?thesis
    proof (cases "takeWhile p r = []")
      case True
      then have dr: "dropWhile p r = r"
        by (cases r) (auto split: if_splits)
      from True Cons pc dr show ?thesis by simp
    next
      case False
      then obtain c' r' where r: "r = c' # r'" and pc': "p c'"
        by (cases r) (auto split: if_splits)
      have fb: "match_items its r = None" if "match_items its (dropWhile p r) = None"
        using assms
      proof
        assume "its = []" with that show ?thesis by simp
      next
        assume "\<exists>q its'. its = One q # its' \<and> (\<forall>c. q c \<longrightarrow> \<not> p c)"
        then obtain q its' where "its = One q # its'" "\<not> q c'" using pc' by blast
        then show ?thesis by (simp add: r)
      qed
      show ?thesis
      proof (cases "match_items its (dropWhile p r)")
        case None
        with False Cons pc fb show ?thesis by simp
      next
        case (Some a)
        with False Cons pc show ?thesis by (cases a) simp
      qed
    qed
  qed
qed

lemma is_dot_not_digit: "is_dot c \<Longrightarrow> \<not> is_digit c"
  by (auto simp: is_dot_def is_digit_def)

lemma is_sign_not_digit: "is_sign c \<Longrightarrow> \<not> is_digit c"
  by (auto simp: is_sign_def is_digit_def)

lemma match_signed_decimal_items:
  assumes "its = [] \<or> (\<exists>q its'. its = One q # its' \<and> (\<forall>c. q c \<longrightarrow> \<not> is_digit c))"
  shows "match_items (signed_decimal_items @ its) s =
     (case scan_signed_decimal s of
        None \<Rightarrow> None
      | Some (ps, r) \<Rightarrow> map_option (\<lambda>(parts, rest). (ps @ parts, rest)) (match_items its r))"
proof -
  have m1: "match_items (Many1 is_digit # One is_dot # Many1 is_digit # its) t =
     (if takeWhile is_digit t = [] then None
      else map_option (\<lambda>(parts, rest). (takeWhile is_digit t # parts, rest))
             (match_items (One is_dot # Many1 is_digit # its) (dropWhile is_digit t)))" for t
    by (rule match_items_Many1) (auto simp: is_dot_not_digit)
  have m2: "match_items (Many1 is_digit # its) t =
     (if takeWhile is_digit t = [] then None
      else map_option (\<lambda>(parts, rest). (takeWhile is_digit t # parts, rest))
             (match_items its (dropWhile is_digit t)))" for t
    by (rule match_items_Many1) (use assms in auto)
  show ?thesis
  proof (cases s)
    case Nil
    then show ?thesis by (simp add: signed_decimal_items_def scan_signed_decimal_def)
  next
    case (Cons c r)
    show ?thesis
    proof (cases "dropWhile is_digit r")
      case Nil
      with \<open>s = c # r\<close> show ?thesis
        by (simp add: signed_decimal_items_def scan_signed_decimal_def m1
            del: dropWhile_eq_Nil_conv)
    next
      case (Cons d r2)
      with \<open>s = c # r\<close> show ?thesis
        by (cases "match_items its (dropWhile is_digit r2)")
          (auto simp: signed_decimal_items_def scan_signed_decimal_def m1 m2)
    qed
  qed
qed

lemma scan_signed_decimal_length:
  "scan_signed_decimal s = Some (ps, r) \<Longrightarrow> length ps = 4"
  by (auto simp: scan_signed_decimal_def split: list.splits if_splits)

lemma re_match_location_scan:
  "re_match_location s =
     (case scan_signed_decimal s of
        None \<Rightarrow> None
      | Some (ps1, r1) \<Rightarrow>
          (case scan_signed_decimal r1 of
             None \<Rightarrow> None
           | Some (ps2, r2) \<Rightarrow> Some (concat ps1, concat ps2)))"
proof -
  have a: "match_items (signed_decimal_items @ signed_decimal_items) s =
     (case scan_signed_decimal s of
        None \<Rightarrow> None
      | Some (ps, r) \<Rightarrow> map_option (\<lambda>(parts, rest). (ps @ parts, rest))
                          (match_items signed_decimal_items r))"
    by (rule match_signed_decimal_items)
       (auto simp: signed_decimal_items_def is_sign_not_digit)
  have b: "match_items signed_decimal_items r =
     (case scan_signed_decimal r of None \<Rightarrow> None | Some (ps, r') \<Rightarrow> Some (ps, r'))" for r
    using match_signed_decimal_items [of "[]" r] by (auto split: option.splits)
  show ?thesis
    by (auto simp: re_match_location_def location_pattern_def a b
        dest: scan_signed_decimal_length split: option.splits)
qed

lemma scan_signed_decimal_sound:
  assumes "scan_signed_decimal s = Some (ps, r)"
  shows "s = concat ps @ r \<and> signed_decimal (concat ps) \<and> (r = [] \<or> \<not> is_digit (hd r))"
proof -
  from assms obtain c t d t2 where s: "s = c # t" and c: "is_sign c"
    and ip: "takeWhile is_digit t \<noteq> []" and dw: "dropWhile is_digit t = d # t2"
    and d: "is_dot d" and fp: "takeWhile is_digit t2 \<noteq> []"
    and ps: "ps = [[c], takeWhile is_digit t, [d], takeWhile is_digit t2]"
    and r: "r = dropWhile is_digit t2"
    by (auto simp: scan_signed_decimal_def split: list.splits if_splits)
  have t: "t = takeWhile is_digit t @ d # t2"
    using dw takeWhile_dropWhile_id [of is_digit t] by simp
  have t2: "t2 = takeWhile is_digit t2 @ r"
    using r by simp
  have "s = concat ps @ r"
    using s ps t t2 by simp
  moreover have "signed_decimal (concat ps)"
    unfolding signed_decimal_def
    apply (rule exI [of _ c], rule exI [of _ "takeWhile is_digit t"], rule exI [of _ "takeWhile is_digit t2"])
    using c ip fp d ps
    by (auto simp: is_dot_def list_all_iff dest: set_takeWhileD)
  moreover have "r = [] \<or> \<not> is_digit (hd r)"
    unfolding r by (metis hd_dropWhile)
  ultimately show ?thesis by blast
qed

lemma scan_signed_decimal_complete:
  assumes "signed_decimal a" and "t = [] \<or> \<not> is_digit (hd t)"
  shows "\<exists>ps. scan_signed_decimal (a @ t) = Some (ps, t) \<and> concat ps = a"
proof -
  from assms(1) obtain c ip fp where a: "a = c # ip @ CHR ''.'' # fp" and c: "is_sign c"
    and ip: "ip \<noteq> []" "list_all is_digit ip" and fp: "fp \<noteq> []" "list_all is_digit fp"
    unfolding signed_decimal_def by blast
  have nd: "\<not> is_digit CHR ''.''" by (simp add: is_digit_def)
  have tw1: "takeWhile is_digit (ip @ CHR ''.'' # fp @ t) = ip"
    using ip nd by (simp add: takeWhile_append2 list_all_iff)
  have dw1: "dropWhile is_digit (ip @ CHR ''.'' # fp @ t) = CHR ''.'' # fp @ t"
    using ip nd by (simp add: dropWhile_append2 list_all_iff)
  have tt: "takeWhile is_digit t = []" "dropWhile is_digit t = t"
    using assms(2) by (cases t; simp)+
  have tw2: "takeWhile is_digit (fp @ t) = fp"
    using fp tt by (simp add: takeWhile_append2 list_all_iff)
  have dw2: "dropWhile is_digit (fp @ t) = t"
    using fp tt by (simp add: dropWhile_append2 list_all_iff)
  show ?thesis
    using c ip fp by (simp add: a scan_signed_decimal_def tw1 dw1 tw2 dw2 is_dot_def)
qed

lemma signed_decimal_hd: "signed_decimal b \<Longrightarrow> \<not> is_digit (hd (b @ t))"
  by (auto simp: signed_decimal_def is_sign_not_digit)

lemma signed_decimal_py_float: "signed_decimal a \<Longrightarrow> \<exists>x. py_float a = Some x"
proof -
  assume "signed_decimal a"
  then obtain c ip fp where a: "a = c # ip @ CHR ''.'' # fp" and c: "is_sign c"
    and ip: "ip \<noteq> []" "list_all is_digit ip" and fp: "fp \<noteq> []" "list_all is_digit fp"
    unfolding signed_decimal_def by blast
  have nd: "\<not> is_digit CHR ''.''" by (simp add: is_digit_def)
  have tw1: "takeWhile is_digit (ip @ CHR ''.'' # fp) = ip"
    using ip nd by (simp add: takeWhile_append2 list_all_iff)
  have dw1: "dropWhile is_digit (ip @ CHR ''.'' # fp) = CHR ''.'' # fp"
    using ip nd by (simp add: dropWhile_append2 list_all_iff)
  show ?thesis
    using c ip fp by (simp add: a py_float_def tw1 dw1 is_dot_def Let_def)
qed

lemma signed_decimalI:
  "is_sign c \<Longrightarrow> ip \<noteq> [] \<Longrightarrow> fp \<noteq> [] \<Longrightarrow> list_all is_digit ip \<Longrightarrow> list_all is_digit fp \<Longrightarrow>
   signed_decimal (c # ip @ CHR ''.'' # fp)"
  unfolding signed_decimal_def by blast

lemma signed_decimal_more_digits:
  assumes "signed_decimal b" and "list_all is_digit ds"
  shows "signed_decimal (b @ ds)"
proof -
  from assms(1) obtain c ip fp where b: "b = c # ip @ CHR ''.'' # fp" and c: "is_sign c"
    and ip: "ip \<noteq> []" "list_all is_digit ip" and fp: "fp \<noteq> []" "list_all is_digit fp"
    unfolding signed_decimal_def by blast
  have "signed_decimal (c # ip @ CHR ''.'' # (fp @ ds))"
    using c ip fp assms(2) by (intro signed_decimalI) simp_all
  then show ?thesis by (simp add: b)
qed

lemma re_match_location_two_decimals:
  assumes "signed_decimal a" and "signed_decimal b" and "t = [] \<or> \<not> is_digit (hd t)"
  shows "re_match_location (a @ b @ t) = Some (a, b)"
proof -
  have "b @ t = [] \<or> \<not> is_digit (hd (b @ t))"
    using assms(2) by (simp add: signed_decimal_hd)
  with assms(1) obtain ps1 where 1: "scan_signed_decimal (a @ b @ t) = Some (ps1, b @ t)" "concat ps1 = a"
    using scan_signed_decimal_complete by blast
  from assms(2,3) obtain ps2 where 2: "scan_signed_decimal (b @ t) = Some (ps2, t)" "concat ps2 = b"
    using scan_signed_decimal_complete by blast
  show ?thesis by (simp add: re_match_location_scan 1 2)
qed

lemma re_match_location_iff:
  "(\<exists>g. re_match_location s = Some g) \<longleftrightarrow> begins_with_two_signed_decimals s"
proof
  assume "\<exists>g. re_match_location s = Some g"
  then obtain ps1 r1 ps2 r2 where 1: "scan_signed_decimal s = Some (ps1, r1)"
    and 2: "scan_signed_decimal r1 = Some (ps2, r2)"
    by (auto simp: re_match_location_scan split: option.splits)
  from scan_signed_decimal_sound [OF 1] scan_signed_decimal_sound [OF 2]
  have "s = concat ps1 @ concat ps2 @ r2" "signed_decimal (concat ps1)" "signed_decimal (concat ps2)"
    by auto
  then show "begins_with_two_signed_decimals s"
    unfolding begins_with_two_signed_decimals_def by blast
next
  assume "begins_with_two_signed_decimals s"
  then obtain a b t where s: "s = a @ b @ t" and a: "signed_decimal a" and b: "signed_decimal b"
    unfolding begins_with_two_signed_decimals_def by blast
  let ?b = "b @ takeWhile is_digit t" and ?t = "dropWhile is_digit t"
  have b': "signed_decimal ?b"
    using b by (rule signed_decimal_more_digits) (auto simp: list_all_iff dest: set_takeWhileD)
  have t': "?t = [] \<or> \<not> is_digit (hd ?t)"
    by (metis hd_dropWhile)
  have "s = a @ ?b @ ?t" by (simp add: s)
  with re_match_location_two_decimals [OF a b' t'] show "\<exists>g. re_match_location s = Some g"
    by simp
qed

lemma re_match_location_groups:
  assumes "re_match_location s = Some (g1, g2)"
  shows "signed_decimal g1 \<and> signed_decimal g2 \<and> (\<exists>t. s = g1 @ g2 @ t \<and> (t = [] \<or> \<not> is_digit (hd t)))"
proof -
  from assms obtain ps1 r1 ps2 r2 where 1: "scan_signed_decimal s = Some (ps1, r1)"
    and 2: "scan_signed_decimal r1 = Some (ps2, r2)" and g: "g1 = concat ps1" "g2 = concat ps2"
    by (auto simp: re_match_location_scan split: option.splits)
  from scan_signed_decimal_sound [OF 1] scan_signed_decimal_sound [OF 2] g
  show ?thesis by auto
qed

lemma parse_location_match:
  assumes "re_match_location s = Some (g1, g2)"
  shows "\<exists>x y. py_float g1 = Some x \<and> py_float g2 = Some y \<and>
           parse_location (JStr s) = Inr (Some (x, y, None))"
proof -
  from re_match_location_groups [OF assms] have "signed_decimal g1" "signed_decimal g2" by auto
  then obtain x y where "py_float g1 = Some x" "py_float g2 = Some y"
    using signed_decimal_py_float by blast
  then show ?thesis
    using assms by (simp add: parse_location_def py_re_match_def py_bind_def py_float_group_def)
qed

lemma parse_location_no_match:
  "re_match_location s = None \<Longrightarrow> parse_location (JStr s) = Inr None"
  by (simp add: parse_location_def py_re_match_def py_bind_def)

lemma re_match_location_ex1:
  "re_match_location ''+40.1234-008.5678+100.000/'' = Some (''+40.1234'', ''-008.5678'')"
  by code_simp

lemma re_match_location_ex2: "re_match_location ''+40-008'' = None"
  by code_simp

lemma re_match_location_ex3: "re_match_location ''40.1234-008.5678'' = None"
  by code_simp

lemma py_float_ex1: "py_float ''+40.1234'' = Some 40.1234"
  by (simp add: py_float_def is_sign_def is_digit_def is_dot_def digits_value_def digit_value_def)

lemma py_float_ex2: "py_float ''-008.5678'' = Some (- 8.5678)"
  by (simp add: py_float_def is_sign_def is_digit_def is_dot_def digits_value_def digit_value_def)


text \<open>
  C10. The parse of the location tag succeeds exactly when the string begins with two
  consecutive signed decimals (sign, digits, point, digits, twice). Whatever follows the
  second number does not change the result: with \<open>a\<close> and \<open>b\<close> signed decimals and \<open>t\<close> not
  starting with a digit (a digit would belong to the second number), the tag \<open>a @ b @ t\<close>
  yields the values of \<open>a\<close> and \<open>b\<close>. The tag \<open>+40.1234-008.5678+100.000/\<close> yields
  40.1234 and -8.5678; a number without a point (\<open>+40-008\<close>) or without a leading sign
  (\<open>40.1234-008.5678\<close>) yields no data.
\<close>

theorem location_pattern_prefix_match:
  "(begins_with_two_signed_decimals s \<longrightarrow>
      (\<exists>lat lon. parse_location (JStr s) = Inr (Some (lat, lon, None))))
   \<and> (\<not> begins_with_two_signed_decimals s \<longrightarrow> parse_location (JStr s) = Inr None)
   \<and> (signed_decimal a \<and> signed_decimal b \<and> (t = [] \<or> \<not> is_digit (hd t)) \<longrightarrow>
        (\<exists>x y. py_float a = Some x \<and> py_float b = Some y \<and>
           parse_location (JStr (a @ b @ t)) = Inr (Some (x, y, None))))
   \<and> parse_location (JStr ''+40.1234-008.5678+100.000/'') = Inr (Some (40.1234, - 8.5678, None))
   \<and> parse_location (JStr ''+40-008'') = Inr None
   \<and> parse_location (JStr ''40.1234-008.5678'') = Inr None"
proof (intro conjI impI)
  assume "begins_with_two_signed_decimals s"
  then obtain g1 g2 where "re_match_location s = Some (g1, g2)"
    using re_match_location_iff [of s] by auto
  from parse_location_match [OF this]
  show "\<exists>lat lon. parse_location (JStr s) = Inr (Some (lat, lon, None))" by blast
next
  assume "\<not> begins_with_two_signed_decimals s"
  then have "re_match_location s = None"
    using re_match_location_iff [of s] by (cases "re_match_location s") auto
  then show "parse_location (JStr s) = Inr None" by (rule parse_location_no_match)
next
  assume "signed_decimal a \<and> signed_decimal b \<and> (t = [] \<or> \<not> is_digit (hd t))"
  then have "re_match_location (a @ b @ t) = Some (a, b)"
    by (simp add: re_match_location_two_decimals)
  from parse_location_match [OF this]
  show "\<exists>x y. py_float a = Some x \<and> py_float b = Some y \<and>
           parse_location (JStr (a @ b @ t)) = Inr (Some (x, y, None))" .
next
  show "parse_location (JStr ''+40.1234-008.5678+100.000/'') = Inr (Some (40.1234, - 8.5678, None))"
    by (simp add: parse_location_def py_re_match_def py_bind_def py_float_group_def
        re_match_location_ex1 py_float_ex1 py_float_ex2)
  show "parse_location (JStr ''+40-008'') = Inr None"
    by (simp add: parse_location_no_match re_match_location_ex2)
  show "parse_location (JStr ''40.1234-008.5678'') = Inr None"
    by (simp add: parse_location_no_match re_match_location_ex3)
qed

theorem location_pattern_prefix_match_witness:
  "begins_with_two_signed_decimals ''+1.5-2.25/''
   \<and> (\<exists>lat lon. parse_location (JStr ''+1.5-2.25/'') = Inr (Some (lat, lon, None)))
   \<and> \<not> begins_with_two_signed_decimals ''+40-008''
   \<and> parse_location (JStr ''+40-008'') = Inr None
   \<and> signed_decimal ''+1.5'' \<and> signed_decimal ''-2.25'' \<and> \<not> is_digit (hd ''/'')
   \<and> (\<exists>x y. py_float ''+1.5'' = Some x \<and> py_float ''-2.25'' = Some y \<and>
          parse_location (JStr (''+1.5'' @ ''-2.25'' @ ''/'')) = Inr (Some (x, y, None)))"
proof -
  have a: "signed_decimal ''+1.5''"
    using signed_decimalI [of "CHR ''+''" "''1''" "''5''"] by (simp add: is_sign_def is_digit_def)
  have b: "signed_decimal ''-2.25''"
    using signed_decimalI [of "CHR ''-''" "''2''" "''25''"] by (simp add: is_sign_def is_digit_def)
  have t: "\<not> is_digit (hd ''/'')"
    by (simp add: is_digit_def)
  have yes: "begins_with_two_signed_decimals ''+1.5-2.25/''"
    unfolding begins_with_two_signed_decimals_def
    using a b by (intro exI [of _ "''+1.5''"] exI [of _ "''-2.25''"] exI [of _ "''/''"]) simp
  have no: "\<not> begins_with_two_signed_decimals ''+40-008''"
    using re_match_location_iff [of "''+40-008''"] by (simp add: re_match_location_ex2)
  show ?thesis
    using a b t yes no
      location_pattern_prefix_match [of "''+1.5-2.25/''" "''+1.5''" "''-2.25''" "''/''"]
      location_pattern_prefix_match [of "''+40-008''" "''+1.5''" "''-2.25''" "''/''"]
    by simp
qed

section \<open>The video extractor\<close>

lemma py_contains_JObj: "py_contains k (JObj kvs) = Inr (map_of kvs k \<noteq> None)"
  by (simp add: map_of_eq_None_iff)

lemma video_try_location:
  assumes "run_ffprobe ev p = Inr out" and "json_loads ev out = Inr (JObj m)"
    and "map_of m ''format'' = Some (JObj f)" and "map_of f ''tags'' = Some (JObj tg)"
    and "map_of tg ''location'' = Some loc"
  shows "video_try ev p = parse_location loc"
  using assms by (simp add: video_try_def py_bind_def py_contains_JObj del: py_contains.simps)

lemma parse_location_alt:
  "parse_location loc = Inr (Some (lat, lon, alt)) \<Longrightarrow> alt = None"
  by (auto simp: parse_location_def py_bind_def split: sum.splits option.splits prod.splits)

lemma video_try_alt:
  assumes "video_try ev p = Inr (Some (lat, lon, alt))"
  shows "alt = None"
proof -
  from assms obtain loc where "parse_location loc = Inr (Some (lat, lon, alt))"
    by (auto simp: video_try_def py_bind_def split: sum.splits if_splits)
  then show ?thesis by (rule parse_location_alt)
qed

lemma extract_video_cases:
  "extract_gps_metadata_from_video ev p =
     (case video_try ev p of
        Inl e \<Rightarrow> (None, LogVideoError p e)
      | Inr None \<Rightarrow> (None, LogVideoNoGps p)
      | Inr (Some g) \<Rightarrow> (Some g, LogVideoExtracted p (fst g) (fst (snd g)) (snd (snd g))))"
  by (auto simp: extract_gps_metadata_from_video_def split: sum.splits option.splits)

lemma extract_photo_cases:
  "extract_gps_metadata_from_photo ev p =
     (case photo_try ev p of
        Inl e \<Rightarrow> (None, LogPhotoError p e)
      | Inr None \<Rightarrow> (None, LogPhotoNoGps p)
      | Inr (Some g) \<Rightarrow> (Some g, LogPhotoExtracted p (fst g) (fst (snd g)) (snd (snd g))))"
  by (auto simp: extract_gps_metadata_from_photo_def split: sum.splits option.splits)

text \<open>
  C2. When the location tag of the container is \<open>+40.1234-008.5678\<close>, the video extractor
  returns latitude 40.1234 and longitude -8.5678 with no altitude. In general the first group
  of the match gives the latitude and the second the longitude, and whenever the extractor
  returns a position its altitude is absent.
\<close>

theorem video_location_tag:
  "(run_ffprobe ev p = Inr out \<and> json_loads ev out = Inr (JObj m) \<and>
    map_of m ''format'' = Some (JObj f) \<and> map_of f ''tags'' = Some (JObj tg) \<and>
    map_of tg ''location'' = Some (JStr ''+40.1234-008.5678'') \<longrightarrow>
      extract_gps_metadata_from_video ev p =
        (Some (40.1234, - 8.5678, None), LogVideoExtracted p 40.1234 (- 8.5678) None))
   \<and> (run_ffprobe ev p = Inr out \<and> json_loads ev out = Inr (JObj m) \<and>
    map_of m ''format'' = Some (JObj f) \<and> map_of f ''tags'' = Some (JObj tg) \<and>
    map_of tg ''location'' = Some (JStr loc) \<and> re_match_location loc = Some (g1, g2) \<longrightarrow>
      (\<exists>lat lon. py_float g1 = Some lat \<and> py_float g2 = Some lon \<and>
         fst (extract_gps_metadata_from_video ev p) = Some (lat, lon, None)))
   \<and> (\<forall>lat lon alt. fst (extract_gps_metadata_from_video ev p) = Some (lat, lon, alt) \<longrightarrow>
         alt = None)"
proof (intro conjI impI allI)
  assume h: "run_ffprobe ev p = Inr out \<and> json_loads ev out = Inr (JObj m) \<and>
    map_of m ''format'' = Some (JObj f) \<and> map_of f ''tags'' = Some (JObj tg) \<and>
    map_of tg ''location'' = Some (JStr ''+40.1234-008.5678'')"
  then have "video_try ev p = parse_location (JStr ''+40.1234-008.5678'')"
    by (intro video_try_location) auto
  moreover have "re_match_location ''+40.1234-008.5678'' = Some (''+40.1234'', ''-008.5678'')"
    by code_simp
  ultimately have "video_try ev p = Inr (Some (40.1234, - 8.5678, None))"
    by (simp add: parse_location_def py_re_match_def py_bind_def py_float_group_def
        py_float_ex1 py_float_ex2)
  then show "extract_gps_metadata_from_video ev p =
        (Some (40.1234, - 8.5678, None), LogVideoExtracted p 40.1234 (- 8.5678) None)"
    by (simp add: extract_video_cases)
next
  assume h: "run_ffprobe ev p = Inr out \<and> json_loads ev out = Inr (JObj m) \<and>
    map_of m ''format'' = Some (JObj f) \<and> map_of f ''tags'' = Some (JObj tg) \<and>
    map_of tg ''location'' = Some (JStr loc) \<and> re_match_location loc = Some (g1, g2)"
  then have v: "video_try ev p = parse_location (JStr loc)"
    by (intro video_try_location) auto
  from h have "re_match_location loc = Some (g1, g2)" by simp
  from parse_location_match [OF this] obtain x y where
    "py_float g1 = Some x" "py_float g2 = Some y" "parse_location (JStr loc) = Inr (Some (x, y, None))"
    by blast
  with v show "\<exists>lat lon. py_float g1 = Some lat \<and> py_float g2 = Some lon \<and>
         fst (extract_gps_metadata_from_video ev p) = Some (lat, lon, None)"
    by (simp add: extract_video_cases)
next
  fix lat lon alt
  assume "fst (extract_gps_metadata_from_video ev p) = Some (lat, lon, alt)"
  then have "video_try ev p = Inr (Some (lat, lon, alt))"
    by (auto simp: extract_video_cases split: sum.splits option.splits)
  then show "alt = None" by (rule video_try_alt)
qed

lemma example_video_facts:
  "run_ffprobe example_env ''base/Mission1/b.mp4'' = Inr ''tags of b.mp4''"
  "json_loads example_env ''tags of b.mp4'' =
     Inr (JObj [(''format'',
            JObj [(''filename'', JStr ''base/Mission1/b.mp4''),
                  (''tags'', JObj [(''location'', JStr ''+40.1234-008.5678'')])])])"
  by (simp_all add: example_env_def example_metadata_def)

theorem video_location_tag_witness:
  "extract_gps_metadata_from_video example_env ''base/Mission1/b.mp4'' =
     (Some (40.1234, - 8.5678, None),
      LogVideoExtracted ''base/Mission1/b.mp4'' 40.1234 (- 8.5678) None)
   \<and> re_match_location ''+40.1234-008.5678'' = Some (''+40.1234'', ''-008.5678'')
   \<and> py_float ''+40.1234'' = Some 40.1234 \<and> py_float ''-008.5678'' = Some (- 8.5678)"
proof -
  have rm: "re_match_location ''+40.1234-008.5678'' = Some (''+40.1234'', ''-008.5678'')"
    by code_simp
  show ?thesis
    using video_location_tag [of example_env "''base/Mission1/b.mp4''" "''tags of b.mp4''"
        "[(''format'',
            JObj [(''filename'', JStr ''base/Mission1/b.mp4''),
                  (''tags'', JObj [(''location'', JStr ''+40.1234-008.5678'')])])]"
        "[(''filename'', JStr ''base/Mission1/b.mp4''),
                  (''tags'', JObj [(''location'', JStr ''+40.1234-008.5678'')])]"
        "[(''location'', JStr ''+40.1234-008.5678'')]"
        "''+40.1234-008.5678''" "''+40.1234''" "''-008.5678''"]
    by (simp add: example_video_facts rm py_float_ex1 py_float_ex2)
qed









section \<open>The photo extractor\<close>

lemma dms_to_decimal_triple:
  "dms_to_decimal sign [d, m, s] = Inr (sign * (d + m / 60 + s / 3600))"
  by (simp add: dms_to_decimal_def py_index_def py_bind_def)




lemma photo_try_triples:
  assumes "open_image ev p = Inr img" and "has_exif img"
    and "gps_latitude img = Some [d1, m1, s1]" and "gps_longitude img = Some [d2, m2, s2]"
    and "gps_latitude_ref img = Some lat_ref" and "gps_longitude_ref img = Some lon_ref"
  shows "photo_try ev p =
     Inr (Some ((if lat_ref = ''N'' then 1 else - 1) * (d1 + m1 / 60 + s1 / 3600),
                (if lon_ref = ''E'' then 1 else - 1) * (d2 + m2 / 60 + s2 / 3600),
                gps_altitude img))"
  using assms
  by (simp add: photo_try_def py_bind_def py_getattr_def dms_to_decimal_triple Let_def)







section \<open>The walk over a mission folder\<close>

lemma endswith_iff: "endswith s suf \<longleftrightarrow> (\<exists>pre. s = pre @ suf)"
proof
  assume "endswith s suf"
  then have "s = take (length s - length suf) s @ suf"
    by (metis append_take_drop_id endswith_def)
  then show "\<exists>pre. s = pre @ suf" ..
next
  assume "\<exists>pre. s = pre @ suf"
  then show "endswith s suf" by (auto simp: endswith_def)
qed

lemma file_extension_append:
  assumes "CHR ''.'' \<notin> set e"
  shows "file_extension (pre @ CHR ''.'' # e) = Some e"
proof -
  have "takeWhile (\<lambda>c. c \<noteq> CHR ''.'') (rev e @ CHR ''.'' # rev pre) = rev e"
    using assms by (subst takeWhile_append2) auto
  then show ?thesis by (simp add: file_extension_def)
qed

lemma file_extension_Some:
  assumes "file_extension s = Some e"
  shows "\<exists>pre. s = pre @ CHR ''.'' # e"
proof -
  let ?P = "\<lambda>c. c \<noteq> CHR ''.''"
  from assms have dot: "CHR ''.'' \<in> set s" and e: "e = rev (takeWhile ?P (rev s))"
    by (auto simp: file_extension_def split: if_splits)
  from dot have "dropWhile ?P (rev s) \<noteq> []" by auto
  then obtain c r where d: "dropWhile ?P (rev s) = c # r"
    by (cases "dropWhile ?P (rev s)") auto
  then have "c = CHR ''.''"
    using hd_dropWhile [of ?P "rev s"] by auto
  with d have "rev s = takeWhile ?P (rev s) @ CHR ''.'' # r"
    using takeWhile_dropWhile_id [of ?P "rev s"] by simp
  then have "rev (rev s) = rev (takeWhile ?P (rev s) @ CHR ''.'' # r)" by simp
  then have "s = rev r @ CHR ''.'' # e" by (simp add: e)
  then show ?thesis ..
qed

lemma endswith_extension:
  assumes "CHR ''.'' \<notin> set e"
  shows "endswith s (CHR ''.'' # e) \<longleftrightarrow> file_extension s = Some e"
  using assms file_extension_append file_extension_Some by (auto simp: endswith_iff)

lemma photo_suffix_iff:
  "endswith_any s [''.jpg'', ''.jpeg'', ''.png''] \<longleftrightarrow>
     (\<exists>e \<in> set [''jpg'', ''jpeg'', ''png'']. file_extension s = Some e)"
  by (simp add: endswith_any_def endswith_extension)

lemma video_suffix_iff:
  "endswith_any s [''.mp4'', ''.mov'', ''.avi'', ''.mkv''] \<longleftrightarrow>
     (\<exists>e \<in> set [''mp4'', ''mov'', ''avi'', ''mkv'']. file_extension s = Some e)"
  by (simp add: endswith_any_def endswith_extension)

lemma classify_photo:
  "classify name = PhotoFile \<longleftrightarrow> endswith_any (py_lower name) [''.jpg'', ''.jpeg'', ''.png'']"
  by (auto simp: classify_def photo_suffix_iff split: option.splits)

lemma classify_video:
  "classify name = VideoFile \<longleftrightarrow>
     \<not> endswith_any (py_lower name) [''.jpg'', ''.jpeg'', ''.png''] \<and>
     endswith_any (py_lower name) [''.mp4'', ''.mov'', ''.avi'', ''.mkv'']"
  by (auto simp: classify_def photo_suffix_iff video_suffix_iff split: option.splits)








lemma example_photo_result:
  "extract_gps_metadata_from_photo example_env ''base/Mission1/a.jpg'' =
     (Some (40.21, - 8.505, Some 120),
      LogPhotoExtracted ''base/Mission1/a.jpg'' 40.21 (- 8.505) (Some 120))"
proof -
  have "photo_try example_env ''base/Mission1/a.jpg'' =
     Inr (Some ((if ''N'' = ''N'' then 1 else - 1) * (40 + 12 / 60 + 36 / 3600),
                (if ''W'' = ''E'' then 1 else - 1) * (8 + 30 / 60 + 18 / 3600),
                gps_altitude example_image))"
    by (rule photo_try_triples) (simp_all add: example_env_def example_image_def)
  then show ?thesis
    by (simp add: extract_photo_cases example_image_def)
qed

lemma example_video_result:
  "extract_gps_metadata_from_video example_env ''base/Mission1/b.mp4'' =
     (Some (40.1234, - 8.5678, None),
      LogVideoExtracted ''base/Mission1/b.mp4'' 40.1234 (- 8.5678) None)"
proof -
  have "video_try example_env ''base/Mission1/b.mp4'' = parse_location (JStr ''+40.1234-008.5678'')"
    by (rule video_try_location [where out = "''tags of b.mp4''"
          and m = "[(''format'',
            JObj [(''filename'', JStr ''base/Mission1/b.mp4''),
                  (''tags'', JObj [(''location'', JStr ''+40.1234-008.5678'')])])]"
          and f = "[(''filename'', JStr ''base/Mission1/b.mp4''),
                  (''tags'', JObj [(''location'', JStr ''+40.1234-008.5678'')])]"
          and tg = "[(''location'', JStr ''+40.1234-008.5678'')]"])
       (simp_all add: example_env_def example_metadata_def)
  moreover have "re_match_location ''+40.1234-008.5678'' = Some (''+40.1234'', ''-008.5678'')"
    by code_simp
  ultimately have "video_try example_env ''base/Mission1/b.mp4'' = Inr (Some (40.1234, - 8.5678, None))"
    by (simp add: parse_location_def py_re_match_def py_bind_def py_float_group_def
        py_float_ex1 py_float_ex2)
  then show ?thesis by (simp add: extract_video_cases)
qed

lemma example_classes:
  "classify ''a.jpg'' = PhotoFile" "classify ''b.mp4'' = VideoFile"
  "classify ''notes.txt'' = IgnoredFile"
  by code_simp+

lemma example_walk:
  "os_walk example_env ''base/Mission1'' =
     [(''base/Mission1'', [], [''a.jpg'', ''b.mp4'', ''notes.txt''])]"
  "os_path_join example_env ''base/Mission1'' ''a.jpg'' = ''base/Mission1/a.jpg''"
  "os_path_join example_env ''base/Mission1'' ''b.mp4'' = ''base/Mission1/b.mp4''"
  by (simp_all add: example_env_def)


section \<open>One mission and the database\<close>


lemma process_mission_media_not_found:
  assumes "select_mission_id (missoes w) name = None"
  shows "process_mission_media ev w name path =
     (Inl (ValueError (not_found_message name)),
      w\<lparr>db_calls := db_calls w @ [ExecuteSelectMission name]\<rparr>)"
  using assms by (simp add: process_mission_media_def)

lemma process_mission_media_found:
  assumes "select_mission_id (missoes w) name = Some mid"
  shows "process_mission_media ev w name path =
     (let walked = walk_media ev mid (os_walk ev path); data = fst walked in
      (Inr (),
       if data \<noteq> [] then
         w\<lparr>drone_mission := execute_values (drone_mission w) (map row_of data),
           db_calls := db_calls w @ [ExecuteSelectMission name,
                                     ExecuteValuesInsert (map row_of data), Commit],
           stdout := stdout w @ snd walked @ [LogProcessedMedia name (length data)]\<rparr>
       else
         w\<lparr>db_calls := db_calls w @ [ExecuteSelectMission name],
           stdout := stdout w @ snd walked @ [LogProcessedMedia name 0]\<rparr>))"
  using assms by (simp add: process_mission_media_def Let_def)

lemma execute_values_Nil: "execute_values tbl [] = tbl"
  by (simp add: execute_values_def)

lemma process_mission_media_table:
  "drone_mission (snd (process_mission_media ev w name path)) =
     (case select_mission_id (missoes w) name of
        None \<Rightarrow> drone_mission w
      | Some mid \<Rightarrow>
          execute_values (drone_mission w)
            (map row_of (fst (walk_media ev mid (os_walk ev path)))))"
  by (auto simp: process_mission_media_not_found process_mission_media_found Let_def
      execute_values_Nil split: option.splits)

lemma process_mission_media_missoes:
  "missoes (snd (process_mission_media ev w name path)) = missoes w"
  by (cases "select_mission_id (missoes w) name")
     (simp_all add: process_mission_media_not_found process_mission_media_found Let_def)

lemma process_mission_media_result:
  "fst (process_mission_media ev w name path) =
     (case select_mission_id (missoes w) name of
        None \<Rightarrow> Inl (ValueError (not_found_message name))
      | Some mid \<Rightarrow> Inr ())"
  by (cases "select_mission_id (missoes w) name")
     (simp_all add: process_mission_media_not_found process_mission_media_found Let_def)

text \<open>
  C9. When the walk of a mission yields no record, the sink makes no insert call (and no
  commit): the only call on the connection is the lookup of the mission, and the table
  \<open>drone_mission\<close> is left as it was.
\<close>

theorem empty_mission_no_insert:
  assumes "select_mission_id (missoes w) name = Some mid"
    and "fst (walk_media ev mid (os_walk ev path)) = []"
  shows "process_mission_media ev w name path =
     (Inr (), w\<lparr>db_calls := db_calls w @ [ExecuteSelectMission name],
                stdout := stdout w @ snd (walk_media ev mid (os_walk ev path)) @
                          [LogProcessedMedia name 0]\<rparr>)
     \<and> drone_mission (snd (process_mission_media ev w name path)) = drone_mission w
     \<and> (\<forall>rows. ExecuteValuesInsert rows \<notin>
           set (drop (length (db_calls w)) (db_calls (snd (process_mission_media ev w name path)))))"
  using assms by (simp add: process_mission_media_found Let_def)


lemma file_step_ignored:
  assumes "classify f = IgnoredFile"
  shows "file_step ev mid r f acc = acc"
proof -
  from assms have "\<not> endswith_any (py_lower f) [''.jpg'', ''.jpeg'', ''.png'']"
    and "\<not> endswith_any (py_lower f) [''.mp4'', ''.mov'', ''.avi'', ''.mkv'']"
    using classify_photo [of f] classify_video [of f] by auto
  then show ?thesis by (simp add: file_step_def Let_def)
qed

theorem empty_mission_no_insert_witness:
  "select_mission_id (missoes (example_world\<lparr>missoes := [(2, ''Mission2'')]\<rparr>)) ''Mission2'' = Some 2
   \<and> fst (walk_media (example_env\<lparr>os_walk := \<lambda>p. [(p, [], [''notes.txt''])]\<rparr>) 2
             (os_walk (example_env\<lparr>os_walk := \<lambda>p. [(p, [], [''notes.txt''])]\<rparr>) ''base/Mission2'')) = []
   \<and> process_mission_media (example_env\<lparr>os_walk := \<lambda>p. [(p, [], [''notes.txt''])]\<rparr>)
        (example_world\<lparr>missoes := [(2, ''Mission2'')]\<rparr>) ''Mission2'' ''base/Mission2'' =
       (Inr (), \<lparr>missoes = [(2, ''Mission2'')], drone_mission = [],
                 db_calls = [ExecuteSelectMission ''Mission2''],
                 stdout = [LogProcessedMedia ''Mission2'' 0]\<rparr>)"
proof -
  let ?ev = "example_env\<lparr>os_walk := \<lambda>p. [(p, [], [''notes.txt''])]\<rparr>"
  let ?w = "example_world\<lparr>missoes := [(2, ''Mission2'')]\<rparr>"
  have s: "select_mission_id (missoes ?w) ''Mission2'' = Some 2"
    by (simp add: select_mission_id_def)
  have wm: "walk_media ?ev 2 (os_walk ?ev ''base/Mission2'') = ([], [])"
    by (simp add: walk_media_def file_step_ignored example_classes)
  then have d: "fst (walk_media ?ev 2 (os_walk ?ev ''base/Mission2'')) = []"
    by simp
  from s d empty_mission_no_insert [OF s d] wm show ?thesis
    by (simp add: example_world_def)
qed

section \<open>The orchestrator\<close>

lemma mission_loop_skip:
  "\<not> is_mission_folder ev base m \<Longrightarrow> mission_loop ev base (m # rest) w = mission_loop ev base rest w"
  by (auto simp: is_mission_folder_def Let_def)

lemma mission_loop_not_found:
  assumes "is_mission_folder ev base m" and "select_mission_id (missoes w) m = None"
  shows "mission_loop ev base (m # rest) w =
     (Inl (ValueError (not_found_message m)),
      w\<lparr>db_calls := db_calls w @ [ExecuteSelectMission m],
        stdout := stdout w @ [LogProcessingMission m]\<rparr>)"
  using assms
  by (simp add: is_mission_folder_def Let_def process_mission_media_not_found)

lemma mission_loop_found:
  assumes "is_mission_folder ev base m" and "select_mission_id (missoes w) m = Some mid"
  shows "mission_loop ev base (m # rest) w =
     mission_loop ev base rest
       (snd (process_mission_media ev (w\<lparr>stdout := stdout w @ [LogProcessingMission m]\<rparr>) m
               (os_path_join ev base m)))"
proof -
  let ?w = "w\<lparr>stdout := stdout w @ [LogProcessingMission m]\<rparr>"
  have "fst (process_mission_media ev ?w m (os_path_join ev base m)) = Inr ()"
    using assms(2) by (simp add: process_mission_media_result)
  then obtain w' where "process_mission_media ev ?w m (os_path_join ev base m) = (Inr (), w')"
    by (cases "process_mission_media ev ?w m (os_path_join ev base m)") auto
  then show ?thesis
    using assms(1) by (simp add: is_mission_folder_def Let_def)
qed
















lemma example_folders:
  "is_mission_folder example_env ''base'' ''Mission1''"
  "\<not> is_mission_folder example_env ''base'' ''Other''"
  "is_mission_folder example_env ''base'' ''Mission2''"
  "connect example_env ''config.json'' = Inr ()"
  "os_listdir example_env ''base'' = Inr [''Mission1'', ''Other'', ''Mission2'']"
  by (simp_all add: example_env_def is_mission_folder_def startswith_def)


section \<open>Running the pipeline again\<close>

lemma insert_existing_path:
  "row_full_path r \<in> stored_paths tbl \<Longrightarrow> insert_on_conflict_do_nothing tbl r = tbl"
  by (simp add: insert_on_conflict_do_nothing_def stored_paths_def)

lemma stored_paths_insert:
  "stored_paths (insert_on_conflict_do_nothing tbl r) = insert (row_full_path r) (stored_paths tbl)"
  by (auto simp: insert_on_conflict_do_nothing_def stored_paths_def)

lemma stored_paths_Cons: "stored_paths (r # rows) = insert (row_full_path r) (stored_paths rows)"
  by (simp add: stored_paths_def)

lemma stored_paths_Nil: "stored_paths [] = {}"
  by (simp add: stored_paths_def)

lemma execute_values_Cons:
  "execute_values tbl (r # rows) = execute_values (insert_on_conflict_do_nothing tbl r) rows"
  by (simp add: execute_values_def)

lemma execute_values_existing_paths:
  "stored_paths rows \<subseteq> stored_paths tbl \<Longrightarrow> execute_values tbl rows = tbl"
proof (induction rows)
  case Nil
  show ?case by (simp add: execute_values_Nil)
next
  case (Cons r rows)
  then have "insert_on_conflict_do_nothing tbl r = tbl"
    by (intro insert_existing_path) (simp add: stored_paths_Cons)
  with Cons show ?case by (simp add: execute_values_Cons stored_paths_Cons)
qed

lemma execute_values_paths:
  "stored_paths (execute_values tbl rows) =
     stored_paths tbl \<union> stored_paths rows"
proof (induction rows arbitrary: tbl)
  case Nil
  show ?case by (simp add: execute_values_Nil stored_paths_Nil)
next
  case (Cons r rows)
  show ?case
    by (simp add: execute_values_Cons Cons.IH stored_paths_insert stored_paths_Cons)
qed

lemma execute_values_keeps_rows: "\<exists>new. execute_values tbl rows = tbl @ new"
proof (induction rows arbitrary: tbl)
  case Nil
  show ?case by (simp add: execute_values_Nil)
next
  case (Cons r rows)
  obtain new where "execute_values (insert_on_conflict_do_nothing tbl r) rows =
      insert_on_conflict_do_nothing tbl r @ new"
    using Cons.IH by blast
  then show ?case
    by (auto simp: execute_values_Cons insert_on_conflict_do_nothing_def)
qed

lemma process_mission_media_paths_mono:
  "stored_paths (drone_mission w) \<subseteq>
     stored_paths (drone_mission (snd (process_mission_media ev w name path)))"
  by (auto simp: process_mission_media_table execute_values_paths split: option.splits)

lemma mission_loop_paths_mono:
  "stored_paths (drone_mission w) \<subseteq>
     stored_paths (drone_mission (snd (mission_loop ev base entries w)))"
proof (induction entries arbitrary: w)
  case Nil
  show ?case by simp
next
  case (Cons m rest)
  show ?case
  proof (cases "is_mission_folder ev base m")
    case False
    then show ?thesis by (simp add: mission_loop_skip Cons.IH del: mission_loop.simps)
  next
    case True
    show ?thesis
    proof (cases "select_mission_id (missoes w) m")
      case None
      with True show ?thesis by (simp add: mission_loop_not_found del: mission_loop.simps)
    next
      case (Some mid)
      let ?w = "w\<lparr>stdout := stdout w @ [LogProcessingMission m]\<rparr>"
      let ?wa = "snd (process_mission_media ev ?w m (os_path_join ev base m))"
      have "mission_loop ev base (m # rest) w = mission_loop ev base rest ?wa"
        using True Some by (rule mission_loop_found)
      moreover have "stored_paths (drone_mission w) \<subseteq>
          stored_paths (drone_mission ?wa)"
        using process_mission_media_paths_mono [of ?w ev m] by simp
      ultimately show ?thesis
        using Cons.IH [of ?wa] by (simp del: mission_loop.simps)
    qed
  qed
qed

lemma mission_loop_missoes:
  "missoes (snd (mission_loop ev base entries w)) = missoes w"
proof (induction entries arbitrary: w)
  case Nil
  show ?case by simp
next
  case (Cons m rest)
  show ?case
  proof (cases "is_mission_folder ev base m")
    case False
    then show ?thesis by (simp add: mission_loop_skip Cons.IH del: mission_loop.simps)
  next
    case True
    show ?thesis
    proof (cases "select_mission_id (missoes w) m")
      case None
      with True show ?thesis by (simp add: mission_loop_not_found del: mission_loop.simps)
    next
      case (Some mid)
      with True show ?thesis
        by (simp add: mission_loop_found Cons.IH process_mission_media_missoes
            del: mission_loop.simps)
    qed
  qed
qed

lemma mission_loop_second_run:
  assumes "missoes w' = missoes w"
    and "stored_paths (drone_mission (snd (mission_loop ev base entries w))) \<subseteq>
         stored_paths (drone_mission w')"
  shows "drone_mission (snd (mission_loop ev base entries w')) = drone_mission w' \<and>
         fst (mission_loop ev base entries w') = fst (mission_loop ev base entries w)"
  using assms
proof (induction entries arbitrary: w w')
  case Nil
  show ?case by simp
next
  case (Cons m rest)
  show ?case
  proof (cases "is_mission_folder ev base m")
    case False
    with Cons.prems Cons.IH [of w' w] show ?thesis
      by (simp add: mission_loop_skip del: mission_loop.simps)
  next
    case True
    show ?thesis
    proof (cases "select_mission_id (missoes w) m")
      case None
      with True Cons.prems(1) show ?thesis
        by (simp add: mission_loop_not_found del: mission_loop.simps)
    next
      case (Some mid)
      let ?path = "os_path_join ev base m"
      let ?rows = "map row_of (fst (walk_media ev mid (os_walk ev ?path)))"
      let ?v = "w\<lparr>stdout := stdout w @ [LogProcessingMission m]\<rparr>"
      let ?v' = "w'\<lparr>stdout := stdout w' @ [LogProcessingMission m]\<rparr>"
      let ?wa = "snd (process_mission_media ev ?v m ?path)"
      let ?wa' = "snd (process_mission_media ev ?v' m ?path)"
      have l: "mission_loop ev base (m # rest) w = mission_loop ev base rest ?wa"
        using True Some by (rule mission_loop_found)
      have l': "mission_loop ev base (m # rest) w' = mission_loop ev base rest ?wa'"
        using True Some Cons.prems(1) by (intro mission_loop_found) simp_all
      have ta: "drone_mission ?wa = execute_values (drone_mission w) ?rows"
        using Some by (simp add: process_mission_media_table)
      have ta': "drone_mission ?wa' = execute_values (drone_mission w') ?rows"
        using Some Cons.prems(1) by (simp add: process_mission_media_table)
      have "stored_paths ?rows \<subseteq> stored_paths (drone_mission ?wa)"
        by (simp add: ta execute_values_paths)
      also have "\<dots> \<subseteq> stored_paths (drone_mission (snd (mission_loop ev base rest ?wa)))"
        by (rule mission_loop_paths_mono)
      also have "\<dots> \<subseteq> stored_paths (drone_mission w')"
        using Cons.prems(2) by (simp only: l)
      finally have "execute_values (drone_mission w') ?rows = drone_mission w'"
        by (rule execute_values_existing_paths)
      with ta' have same: "drone_mission ?wa' = drone_mission w'" by simp
      have m: "missoes ?wa' = missoes ?wa"
        using Cons.prems(1) by (simp add: process_mission_media_missoes)
      have "stored_paths (drone_mission (snd (mission_loop ev base rest ?wa))) \<subseteq>
          stored_paths (drone_mission ?wa')"
        using Cons.prems(2) by (simp only: l same)
      from Cons.IH [OF m this] show ?thesis
        by (simp only: l l' same)
    qed
  qed
qed


lemma create_drone_mission_table_fields:
  "drone_mission (create_drone_mission_table w) = drone_mission w"
  "missoes (create_drone_mission_table w) = missoes w"
  by (simp_all add: create_drone_mission_table_def)

lemma process_all_table:
  "drone_mission (snd (process_all ev w base cfg)) =
     (case connect ev cfg of
        Inl e \<Rightarrow> drone_mission w
      | Inr u \<Rightarrow>
          (case os_listdir ev base of
             Inl e \<Rightarrow> drone_mission w
           | Inr entries \<Rightarrow>
               drone_mission (snd (mission_loop ev base entries
                 (create_drone_mission_table (w\<lparr>stdout := stdout w @ [LogConnected]\<rparr>))))))"
  by (auto simp: process_all_def Let_def create_drone_mission_table_fields
      split: sum.splits prod.splits)

lemma process_all_missoes: "missoes (snd (process_all ev w base cfg)) = missoes w"
proof -
  have "missoes (snd (mission_loop ev base entries
          (create_drone_mission_table (w\<lparr>stdout := stdout w @ [LogConnected]\<rparr>)))) = missoes w"
    for entries
    by (simp add: mission_loop_missoes create_drone_mission_table_fields)
  then show ?thesis
    by (auto simp: process_all_def Let_def create_drone_mission_table_fields
        split: sum.splits prod.splits) (metis snd_conv)+
qed

lemma process_all_result:
  "fst (process_all ev w base cfg) =
     (case connect ev cfg of
        Inl e \<Rightarrow> Inl e
      | Inr u \<Rightarrow>
          (case os_listdir ev base of
             Inl e \<Rightarrow> Inl e
           | Inr entries \<Rightarrow>
               fst (mission_loop ev base entries
                 (create_drone_mission_table (w\<lparr>stdout := stdout w @ [LogConnected]\<rparr>)))))"
  by (auto simp: process_all_def Let_def split: sum.splits prod.splits)

lemma process_all_twice:
  "drone_mission (snd (process_all ev (snd (process_all ev w base cfg)) base cfg)) =
     drone_mission (snd (process_all ev w base cfg)) \<and>
   fst (process_all ev (snd (process_all ev w base cfg)) base cfg) =
     fst (process_all ev w base cfg)"
proof (cases "connect ev cfg")
  case (Inl e)
  then show ?thesis by (simp add: process_all_table process_all_result)
next
  case c: (Inr u)
  show ?thesis
  proof (cases "os_listdir ev base")
    case (Inl e)
    with c show ?thesis by (simp add: process_all_table process_all_result)
  next
    case (Inr entries)
    let ?w1 = "snd (process_all ev w base cfg)"
    let ?v = "create_drone_mission_table (w\<lparr>stdout := stdout w @ [LogConnected]\<rparr>)"
    let ?v1 = "create_drone_mission_table (?w1\<lparr>stdout := stdout ?w1 @ [LogConnected]\<rparr>)"
    have t1: "drone_mission ?w1 = drone_mission (snd (mission_loop ev base entries ?v))"
      using c Inr by (simp add: process_all_table)
    have m: "missoes ?v1 = missoes ?v"
      by (simp add: create_drone_mission_table_fields process_all_missoes)
    have "stored_paths (drone_mission (snd (mission_loop ev base entries ?v))) \<subseteq>
        stored_paths (drone_mission ?v1)"
      by (simp add: create_drone_mission_table_fields t1)
    from mission_loop_second_run [OF m this]
    have "drone_mission (snd (mission_loop ev base entries ?v1)) = drone_mission ?v1"
      and "fst (mission_loop ev base entries ?v1) = fst (mission_loop ev base entries ?v)"
      by simp_all
    then show ?thesis
      using c Inr by (simp add: process_all_table process_all_result
          create_drone_mission_table_fields del: mission_loop.simps)
  qed
qed

lemma process_mission_media_twice:
  "drone_mission (snd (process_mission_media ev (snd (process_mission_media ev w name path)) name path)) =
     drone_mission (snd (process_mission_media ev w name path))"
proof (cases "select_mission_id (missoes w) name")
  case None
  then show ?thesis
    by (simp add: process_mission_media_table process_mission_media_missoes)
next
  case (Some mid)
  let ?rows = "map row_of (fst (walk_media ev mid (os_walk ev path)))"
  have "stored_paths ?rows \<subseteq> stored_paths (execute_values (drone_mission w) ?rows)"
    by (simp add: execute_values_paths)
  then have "execute_values (execute_values (drone_mission w) ?rows) ?rows =
      execute_values (drone_mission w) ?rows"
    by (rule execute_values_existing_paths)
  with Some show ?thesis
    by (simp add: process_mission_media_table process_mission_media_missoes)
qed

text \<open>
  C3. A record whose \<open>full_path\<close> is already in \<open>drone_mission\<close> is dropped by the insert: the
  table is left as it is, rows already stored are kept unchanged ahead of any new ones, and
  no exception arises from the conflict. Hence a second run of the whole pipeline over the
  same folders, started from the database the first run left, leaves \<open>drone_mission\<close> exactly
  as the first run left it, so the number of rows of every mission is the same; the second
  run ends as the first one did. The same holds for a single mission.
\<close>

theorem rerun_inserts_nothing:
  "(row_full_path r \<in> stored_paths tbl \<longrightarrow> insert_on_conflict_do_nothing tbl r = tbl)
   \<and> (\<exists>new. execute_values tbl rows = tbl @ new)
   \<and> (process_all ev w base cfg = (q1, w1) \<and> process_all ev w1 base cfg = (q2, w2) \<longrightarrow>
        drone_mission w2 = drone_mission w1 \<and> q2 = q1 \<and>
        length (filter (\<lambda>x. row_mission_id x = mid) (drone_mission w2)) =
        length (filter (\<lambda>x. row_mission_id x = mid) (drone_mission w1)))
   \<and> (process_mission_media ev w name path = (p1, v1) \<and>
       process_mission_media ev v1 name path = (p2, v2) \<longrightarrow>
        drone_mission v2 = drone_mission v1)"
proof -
  have a: "row_full_path r \<in> stored_paths tbl \<longrightarrow> insert_on_conflict_do_nothing tbl r = tbl"
    by (simp add: insert_existing_path)
  have b: "\<exists>new. execute_values tbl rows = tbl @ new"
    by (rule execute_values_keeps_rows)
  have c: "drone_mission w2 = drone_mission w1 \<and> q2 = q1 \<and>
        length (filter (\<lambda>x. row_mission_id x = mid) (drone_mission w2)) =
        length (filter (\<lambda>x. row_mission_id x = mid) (drone_mission w1))"
    if "process_all ev w base cfg = (q1, w1) \<and> process_all ev w1 base cfg = (q2, w2)"
  proof -
    from that have "w1 = snd (process_all ev w base cfg)" "q1 = fst (process_all ev w base cfg)"
      "w2 = snd (process_all ev w1 base cfg)" "q2 = fst (process_all ev w1 base cfg)"
      by simp_all
    with process_all_twice [of ev w base cfg] show ?thesis by simp
  qed
  have d: "drone_mission v2 = drone_mission v1"
    if "process_mission_media ev w name path = (p1, v1) \<and>
       process_mission_media ev v1 name path = (p2, v2)"
  proof -
    from that have "v1 = snd (process_mission_media ev w name path)"
      "v2 = snd (process_mission_media ev v1 name path)"
      by simp_all
    with process_mission_media_twice [of ev w name path] show ?thesis by simp
  qed
  from a b c d show ?thesis by blast
qed


lemma example_suffixes:
  "endswith_any (py_lower ''a.jpg'') [''.jpg'', ''.jpeg'', ''.png'']"
  "\<not> endswith_any (py_lower ''b.mp4'') [''.jpg'', ''.jpeg'', ''.png'']"
  "endswith_any (py_lower ''b.mp4'') [''.mp4'', ''.mov'', ''.avi'', ''.mkv'']"
  using classify_photo [of "''a.jpg''"] classify_video [of "''b.mp4''"]
  by (simp_all add: example_classes)

lemma example_walk_media:
  "walk_media example_env 1 (os_walk example_env ''base/Mission1'') =
     ([\<lparr>full_path = ''base/Mission1/a.jpg'', file_name = ''a.jpg'', media_type = ''photo'',
         latitude = 40.21, longitude = - 8.505, altitude = Some 120, mission_id = 1\<rparr>,
       \<lparr>full_path = ''base/Mission1/b.mp4'', file_name = ''b.mp4'', media_type = ''video'',
         latitude = 40.1234, longitude = - 8.5678, altitude = None, mission_id = 1\<rparr>],
      [LogPhotoExtracted ''base/Mission1/a.jpg'' 40.21 (- 8.505) (Some 120),
       LogVideoExtracted ''base/Mission1/b.mp4'' 40.1234 (- 8.5678) None])"
proof -
  have a: "file_step example_env 1 ''base/Mission1'' ''a.jpg'' acc =
      (fst acc @ [\<lparr>full_path = ''base/Mission1/a.jpg'', file_name = ''a.jpg'', media_type = ''photo'',
         latitude = 40.21, longitude = - 8.505, altitude = Some 120, mission_id = 1\<rparr>],
       snd acc @ [LogPhotoExtracted ''base/Mission1/a.jpg'' 40.21 (- 8.505) (Some 120)])" for acc
    by (simp add: file_step_def Let_def example_suffixes example_walk example_photo_result)
  have b: "file_step example_env 1 ''base/Mission1'' ''b.mp4'' acc =
      (fst acc @ [\<lparr>full_path = ''base/Mission1/b.mp4'', file_name = ''b.mp4'', media_type = ''video'',
         latitude = 40.1234, longitude = - 8.5678, altitude = None, mission_id = 1\<rparr>],
       snd acc @ [LogVideoExtracted ''base/Mission1/b.mp4'' 40.1234 (- 8.5678) None])" for acc
    by (simp add: file_step_def Let_def example_suffixes example_walk example_video_result)
  show ?thesis
    by (simp add: walk_media_def example_walk(1) a b file_step_ignored example_classes)
qed

lemma example_first_run_table:
  "drone_mission (snd (process_all example_env
      (example_world\<lparr>missoes := [(1, ''Mission1''), (2, ''Mission2'')]\<rparr>) ''base'' ''config.json'')) =
     [\<lparr>row_full_path = ''base/Mission1/a.jpg'', row_file_name = ''a.jpg'',
       row_media_type = ''photo'', row_altitude = Some 120,
       row_geom = Point 4326 (- 8.505) 40.21, row_mission_id = 1\<rparr>,
      \<lparr>row_full_path = ''base/Mission1/b.mp4'', row_file_name = ''b.mp4'',
       row_media_type = ''video'', row_altitude = None,
       row_geom = Point 4326 (- 8.5678) 40.1234, row_mission_id = 1\<rparr>]"
proof -
  let ?w = "example_world\<lparr>missoes := [(1, ''Mission1''), (2, ''Mission2'')]\<rparr>"
  let ?v = "create_drone_mission_table (?w\<lparr>stdout := stdout ?w @ [LogConnected]\<rparr>)"
  let ?es = "[''Mission1'', ''Other'', ''Mission2'']"
  let ?v1 = "?v\<lparr>stdout := stdout ?v @ [LogProcessingMission ''Mission1'']\<rparr>"
  let ?a = "snd (process_mission_media example_env ?v1 ''Mission1'' ''base/Mission1'')"
  let ?a1 = "?a\<lparr>stdout := stdout ?a @ [LogProcessingMission ''Mission2'']\<rparr>"
  let ?b = "snd (process_mission_media example_env ?a1 ''Mission2'' ''base/Mission2'')"
  have j: "os_path_join example_env ''base'' ''Mission1'' = ''base/Mission1''"
    "os_path_join example_env ''base'' ''Mission2'' = ''base/Mission2''"
    by (simp_all add: example_env_def)
  have s1: "select_mission_id (missoes ?v) ''Mission1'' = Some 1"
    by (simp add: select_mission_id_def example_world_def create_drone_mission_table_def)
  have ma: "missoes ?a = [(1, ''Mission1''), (2, ''Mission2'')]"
    by (simp add: process_mission_media_missoes create_drone_mission_table_def example_world_def)
  then have s2: "select_mission_id (missoes ?a) ''Mission2'' = Some 2"
    by (simp add: select_mission_id_def)
  then have s2': "select_mission_id (missoes ?a1) ''Mission2'' = Some 2"
    by simp
  have "mission_loop example_env ''base'' ?es ?v = mission_loop example_env ''base'' [''Other'', ''Mission2''] ?a"
    using mission_loop_found [OF example_folders(1) s1] by (simp only: j)
  also have "\<dots> = mission_loop example_env ''base'' [''Mission2''] ?a"
    using example_folders(2) by (rule mission_loop_skip)
  also have "\<dots> = mission_loop example_env ''base'' [] ?b"
    using mission_loop_found [OF example_folders(3) s2] by (simp only: j)
  finally have "drone_mission (snd (mission_loop example_env ''base'' ?es ?v)) = drone_mission ?b"
    by simp
  also have "\<dots> = execute_values (drone_mission ?a1)
      (map row_of (fst (walk_media example_env 2 (os_walk example_env ''base/Mission2''))))"
    using s2' by (simp only: process_mission_media_table option.case)
  also have "\<dots> = drone_mission ?a"
    by (simp add: example_env_def walk_media_def execute_values_Nil)
  also have "\<dots> = execute_values (drone_mission ?v1)
      (map row_of (fst (walk_media example_env 1 (os_walk example_env ''base/Mission1''))))"
    using s1 by (simp add: process_mission_media_table)
  also have "\<dots> =
     [\<lparr>row_full_path = ''base/Mission1/a.jpg'', row_file_name = ''a.jpg'',
       row_media_type = ''photo'', row_altitude = Some 120,
       row_geom = Point 4326 (- 8.505) 40.21, row_mission_id = 1\<rparr>,
      \<lparr>row_full_path = ''base/Mission1/b.mp4'', row_file_name = ''b.mp4'',
       row_media_type = ''video'', row_altitude = None,
       row_geom = Point 4326 (- 8.5678) 40.1234, row_mission_id = 1\<rparr>]"
    by (simp add: example_walk_media example_world_def create_drone_mission_table_def
        execute_values_def insert_on_conflict_do_nothing_def row_of_def)
  finally show ?thesis
    by (simp add: process_all_table example_folders del: mission_loop.simps)
qed

theorem rerun_inserts_nothing_witness:
  "length (drone_mission (snd (process_all example_env
      (example_world\<lparr>missoes := [(1, ''Mission1''), (2, ''Mission2'')]\<rparr>) ''base'' ''config.json''))) = 2
   \<and> drone_mission (snd (process_all example_env
        (snd (process_all example_env
           (example_world\<lparr>missoes := [(1, ''Mission1''), (2, ''Mission2'')]\<rparr>) ''base'' ''config.json''))
        ''base'' ''config.json'')) =
      drone_mission (snd (process_all example_env
        (example_world\<lparr>missoes := [(1, ''Mission1''), (2, ''Mission2'')]\<rparr>) ''base'' ''config.json''))
   \<and> length (drone_mission (snd (process_all example_env
        (snd (process_all example_env
           (example_world\<lparr>missoes := [(1, ''Mission1''), (2, ''Mission2'')]\<rparr>) ''base'' ''config.json''))
        ''base'' ''config.json''))) = 2
   \<and> insert_on_conflict_do_nothing
        [\<lparr>row_full_path = ''p'', row_file_name = ''f'', row_media_type = ''photo'',
          row_altitude = None, row_geom = Point 4326 0 0, row_mission_id = 1\<rparr>]
        \<lparr>row_full_path = ''p'', row_file_name = ''f'', row_media_type = ''photo'',
          row_altitude = Some 5, row_geom = Point 4326 1 1, row_mission_id = 1\<rparr> =
        [\<lparr>row_full_path = ''p'', row_file_name = ''f'', row_media_type = ''photo'',
          row_altitude = None, row_geom = Point 4326 0 0, row_mission_id = 1\<rparr>]"
proof -
  let ?w = "example_world\<lparr>missoes := [(1, ''Mission1''), (2, ''Mission2'')]\<rparr>"
  let ?r1 = "process_all example_env ?w ''base'' ''config.json''"
  let ?r2 = "process_all example_env (snd ?r1) ''base'' ''config.json''"
  let ?old = "\<lparr>row_full_path = ''p'', row_file_name = ''f'', row_media_type = ''photo'',
          row_altitude = None, row_geom = Point 4326 0 0, row_mission_id = 1\<rparr>"
  let ?new = "\<lparr>row_full_path = ''p'', row_file_name = ''f'', row_media_type = ''photo'',
          row_altitude = Some 5, row_geom = Point 4326 1 1, row_mission_id = 1\<rparr>"
  have n: "length (drone_mission (snd ?r1)) = 2"
    by (simp add: example_first_run_table)
  have h: "?r1 = (fst ?r1, snd ?r1) \<and> ?r2 = (fst ?r2, snd ?r2)"
    by simp
  have same: "drone_mission (snd ?r2) = drone_mission (snd ?r1)"
    using h rerun_inserts_nothing [where ev = example_env and w = ?w and base = "''base''"
        and cfg = "''config.json''" and ?q1.0 = "fst ?r1" and ?w1.0 = "snd ?r1"
        and ?q2.0 = "fst ?r2" and ?w2.0 = "snd ?r2",
        THEN conjunct2, THEN conjunct2, THEN conjunct1]
    by blast
  have p: "row_full_path ?new \<in> stored_paths [?old]"
    by (simp add: stored_paths_def)
  have keep: "insert_on_conflict_do_nothing [?old] ?new = [?old]"
    using p rerun_inserts_nothing [where r = ?new and tbl = "[?old]", THEN conjunct1]
    by blast
  from n same keep show ?thesis by simp
qed

end
